theory Spec2Isabelle
  imports Main
begin

section \<open>Values of the spreadsheet and of the calendar service\<close>

text \<open>
  The program reads a spreadsheet into a pandas DataFrame, fills defaults, resolves the
  calendar name of every row to a calendar id, turns the date and time cells of every row
  into the \<open>start\<close> and \<open>end\<close> dictionaries of a Google Calendar event
  (\<open>format_date\<close>) and submits one event per row (\<open>create_new_event\<close>).

  A blank spreadsheet cell is pandas' NaN (NaT in a date column): \<open>pd.isna\<close> is true of
  it. A cell is modelled as an \<open>option\<close>, \<open>None\<close> being the blank cell.
\<close>

datatype error =
    Exception string     \<comment> \<open>\<open>raise Exception(msg)\<close>\<close>
  | ValueError           \<comment> \<open>a field out of range in \<open>dt.datetime(...)\<close>; columns of another length than the key\<close>
  | OverflowError        \<comment> \<open>\<open>datetime + timedelta\<close> beyond year 9999\<close>
  | IndexError           \<comment> \<open>\<open>[...][0]\<close> on an empty list\<close>
  | HttpError string     \<comment> \<open>a failure reported by the remote service\<close>

text \<open>
  Python's \<open>datetime.date\<close>, \<open>datetime.datetime\<close> (a subclass of \<open>date\<close>; pandas'
  \<open>Timestamp\<close> is a subclass of \<open>datetime\<close> in turn) and \<open>datetime.time\<close>.
\<close>

record date =
  year :: int
  month :: int
  day :: int

record datetime = date +
  hour :: int
  minute :: int
  second :: int
  microsecond :: int

record time =
  t_hour :: int
  t_minute :: int
  t_second :: int
  t_microsecond :: int

text \<open>A value stored in a dictionary that goes to the service: a string, or NaN.\<close>

datatype pyval = Str string | NaN

type_synonym dict = "(string \<times> pyval) list"

definition of_cell :: "string option \<Rightarrow> pyval" where
  "of_cell c = (case c of None \<Rightarrow> NaN | Some s \<Rightarrow> Str s)"

text \<open>
  One row of the DataFrame, with the columns of the spreadsheet template (after the
  renaming of \<open>Summary\<close> and \<open>Description\<close> to lower case, which changes no value).
\<close>

record row =
  summary :: "string option"
  description :: "string option"
  start_date :: "datetime option"       \<comment> \<open>column \<open>Start Date\<close>, a pandas Timestamp\<close>
  start_time :: "time option"           \<comment> \<open>column \<open>Start Time\<close>, a \<open>datetime.time\<close>\<close>
  end_date :: "datetime option"         \<comment> \<open>column \<open>End Date\<close>\<close>
  end_time :: "time option"             \<comment> \<open>column \<open>End Time\<close>\<close>
  start_time_zone :: "string option"    \<comment> \<open>column \<open>Start Time Zone\<close>\<close>
  end_time_zone :: "string option"      \<comment> \<open>column \<open>End Time Zone\<close>\<close>
  calendar_name :: "string option"      \<comment> \<open>column \<open>Calendar Name\<close>\<close>

text \<open>The row after \<open>df_cal_format\<close>: the columns \<open>id\<close>, \<open>start\<close> and \<open>end\<close> are added.\<close>

record cal_row = row +
  row_id :: "string option"
  start :: dict
  end' :: dict

section \<open>The calendar arithmetic and string formats of Python's datetime\<close>

definition MINYEAR :: int where "MINYEAR = 1"
definition MAXYEAR :: int where "MAXYEAR = 9999"

definition is_leap :: "int \<Rightarrow> bool" where
  "is_leap y = (y mod 4 = 0 \<and> (y mod 100 \<noteq> 0 \<or> y mod 400 = 0))"

definition DAYS_IN_MONTH :: "int list" where
  "DAYS_IN_MONTH = [-1, 31, 28, 31, 30, 31, 30, 31, 31, 30, 31, 30, 31]"

definition DAYS_BEFORE_MONTH :: "int list" where
  "DAYS_BEFORE_MONTH = [-1, 0, 31, 59, 90, 120, 151, 181, 212, 243, 273, 304, 334]"

definition days_in_month :: "int \<Rightarrow> int \<Rightarrow> int" where
  "days_in_month y m = (if m = 2 \<and> is_leap y then 29 else DAYS_IN_MONTH ! nat m)"

definition days_before_year :: "int \<Rightarrow> int" where
  "days_before_year y = (let y' = y - 1 in y' * 365 + y' div 4 - y' div 100 + y' div 400)"

definition days_before_month :: "int \<Rightarrow> int \<Rightarrow> int" where
  "days_before_month y m = DAYS_BEFORE_MONTH ! nat m + (if m > 2 \<and> is_leap y then 1 else 0)"

definition ymd2ord :: "int \<Rightarrow> int \<Rightarrow> int \<Rightarrow> int" where
  "ymd2ord y m d = days_before_year y + days_before_month y m + d"

definition toordinal :: "'a date_scheme \<Rightarrow> int" where
  "toordinal x = ymd2ord (year x) (month x) (day x)"

text \<open>The range checks of the constructors (\<open>_check_date_fields\<close>, \<open>_check_time_fields\<close>).\<close>

definition check_date_fields :: "int \<Rightarrow> int \<Rightarrow> int \<Rightarrow> bool" where
  "check_date_fields y m d =
     (MINYEAR \<le> y \<and> y \<le> MAXYEAR \<and> 1 \<le> m \<and> m \<le> 12 \<and> 1 \<le> d \<and> d \<le> days_in_month y m)"

definition check_time_fields :: "int \<Rightarrow> int \<Rightarrow> int \<Rightarrow> int \<Rightarrow> bool" where
  "check_time_fields h mi s us =
     (0 \<le> h \<and> h \<le> 23 \<and> 0 \<le> mi \<and> mi \<le> 59 \<and> 0 \<le> s \<and> s \<le> 59 \<and> 0 \<le> us \<and> us \<le> 999999)"

text \<open>
  The constructor \<open>dt.datetime(year, month, day, hour, minute, second, microsecond)\<close>;
  a call that leaves out \<open>second\<close> and \<open>microsecond\<close> passes 0 for them.
\<close>

definition datetime_new ::
  "int \<Rightarrow> int \<Rightarrow> int \<Rightarrow> int \<Rightarrow> int \<Rightarrow> int \<Rightarrow> int \<Rightarrow> error + datetime" where
  "datetime_new y m d h mi s us =
     (if check_date_fields y m d \<and> check_time_fields h mi s us
      then Inr \<lparr>year = y, month = m, day = d, hour = h, minute = mi, second = s, microsecond = us\<rparr>
      else Inl ValueError)"

text \<open>The invariants of a datetime (or Timestamp) object and of a time object.\<close>

definition valid_datetime :: "datetime \<Rightarrow> bool" where
  "valid_datetime x =
     (check_date_fields (year x) (month x) (day x) \<and>
      check_time_fields (hour x) (minute x) (second x) (microsecond x))"

definition valid_time :: "time \<Rightarrow> bool" where
  "valid_time t = check_time_fields (t_hour t) (t_minute t) (t_second t) (t_microsecond t)"

text \<open>\<open>x.date()\<close> of a datetime or Timestamp: the calendar day, without the time of day.\<close>

definition date_of :: "datetime \<Rightarrow> date" where
  "date_of x = \<lparr>year = year x, month = month x, day = day x\<rparr>"

text \<open>
  \<open>x + dt.timedelta(hours=1)\<close>. The library adds the hour to the time of day and carries
  into the proleptic Gregorian ordinal of the day; a result after 9999-12-31 raises
  OverflowError. With one hour the carry is at most one day.
\<close>

definition next_day :: "datetime \<Rightarrow> error + datetime" where
  "next_day x =
     (if day x < days_in_month (year x) (month x) then Inr (x\<lparr>day := day x + 1\<rparr>)
      else if month x < 12 then Inr (x\<lparr>month := month x + 1, day := 1\<rparr>)
      else if year x < MAXYEAR then Inr (x\<lparr>year := year x + 1, month := 1, day := 1\<rparr>)
      else Inl OverflowError)"

definition add_one_hour :: "datetime \<Rightarrow> error + datetime" where
  "add_one_hour x =
     (if hour x < 23 then Inr (x\<lparr>hour := hour x + 1\<rparr>)
      else next_day (x\<lparr>hour := 0\<rparr>))"

text \<open>The number of seconds from the start of day 0 of the ordinal count to the instant.\<close>

definition total_seconds :: "datetime \<Rightarrow> int" where
  "total_seconds x = toordinal x * 86400 + hour x * 3600 + minute x * 60 + second x"

text \<open>The format \<open>%0wd\<close> of Python: decimal digits, padded with zeros to width \<open>w\<close>.\<close>

definition digit_char :: "nat \<Rightarrow> char" where
  "digit_char n = ''0123456789'' ! n"

fun str_nat :: "nat \<Rightarrow> string" where
  "str_nat n = (if n < 10 then [digit_char n] else str_nat (n div 10) @ [digit_char (n mod 10)])"

declare str_nat.simps [simp del]

definition zfill :: "nat \<Rightarrow> string \<Rightarrow> string" where
  "zfill w s = replicate (w - length s) (CHR ''0'') @ s"

definition fmt_0d :: "nat \<Rightarrow> int \<Rightarrow> string" where
  "fmt_0d w n =
     (if n < 0 then CHR ''-'' # zfill (w - 1) (str_nat (nat (- n))) else zfill w (str_nat (nat n)))"

text \<open>\<open>str(d)\<close> of a date is \<open>d.isoformat()\<close>, the format \<open>%04d-%02d-%02d\<close>.\<close>

definition date_isoformat :: "date \<Rightarrow> string" where
  "date_isoformat d = fmt_0d 4 (year d) @ ''-'' @ fmt_0d 2 (month d) @ ''-'' @ fmt_0d 2 (day d)"

text \<open>
  \<open>x.isoformat()\<close> of a datetime: \<open>%04d-%02d-%02dT%02d:%02d:%02d\<close>, followed by
  \<open>.%06d\<close> when the microsecond is not 0.
\<close>

definition datetime_isoformat :: "datetime \<Rightarrow> string" where
  "datetime_isoformat x =
     fmt_0d 4 (year x) @ ''-'' @ fmt_0d 2 (month x) @ ''-'' @ fmt_0d 2 (day x) @ ''T'' @
     fmt_0d 2 (hour x) @ '':'' @ fmt_0d 2 (minute x) @ '':'' @ fmt_0d 2 (second x) @
     (if microsecond x \<noteq> 0 then ''.'' @ fmt_0d 6 (microsecond x) else [])"

section \<open>format_date\<close>

text \<open>
  \<open>format_date(row)\<close> returns the list \<open>[start, end]\<close> of two dictionaries, here a pair.
  The second test \<open>pd.notna(row["Start Time"])\<close> of the source is the negation of the
  first one, which has returned, so the function never falls off its end.
\<close>

definition format_date :: "'a row_scheme \<Rightarrow> error + (dict \<times> dict)" where
  "format_date row =
     (case start_date row of
        None \<Rightarrow> Inl (Exception ''Event must contain a Start Date'')
      | Some d \<Rightarrow>
         (case start_time row of
            None \<Rightarrow>
              (let start_date_str = date_isoformat (date_of d);
                   end_date_str = (case end_date row of
                                     None \<Rightarrow> start_date_str
                                   | Some e \<Rightarrow> date_isoformat (date_of e))
               in Inr ([(''date'', Str start_date_str)], [(''date'', Str end_date_str)]))
          | Some t \<Rightarrow>
              (case datetime_new (year d) (month d) (day d) (t_hour t) (t_minute t) 0 0 of
                 Inl err \<Rightarrow> Inl err
               | Inr start_datetime \<Rightarrow>
                  (case (case end_time row of
                           None \<Rightarrow> add_one_hour start_datetime
                         | Some t' \<Rightarrow>
                            (case end_date row of
                               None \<Rightarrow>
                                 datetime_new (year d) (month d) (day d) (t_hour t') (t_minute t') 0 0
                             | Some d' \<Rightarrow>
                                 datetime_new (year d') (month d') (day d') (t_hour t') (t_minute t') 0 0))
                   of
                     Inl err \<Rightarrow> Inl err
                   | Inr end_datetime \<Rightarrow>
                       Inr ([(''dateTime'', Str (datetime_isoformat start_datetime)),
                             (''timeZone'', of_cell (start_time_zone row))],
                            [(''dateTime'', Str (datetime_isoformat end_datetime)),
                             (''timeZone'', of_cell (end_time_zone row))])))))"

section \<open>The calendar service\<close>

text \<open>
  The service is outside the program. What the program reads from it is a parameter of
  the model: the answer to \<open>settings().list()\<close>, the answer to
  \<open>calendarList().list()\<close> and the behaviour of \<open>events().insert(...)\<close>; each of the
  three calls may fail with an error of the service.
\<close>

record setting =
  setting_id :: string
  setting_value :: string

record calendar =
  cal_summary :: string
  cal_id :: string
  accessRole :: string

record event_body =
  body_summary :: pyval
  body_description :: pyval
  body_start :: dict
  body_end :: dict

record service =
  settings_list :: "error + setting list"
  calendarList_list :: "error + calendar list"
  events_insert :: "pyval \<Rightarrow> event_body \<Rightarrow> error + string"

definition default_timezone :: "service \<Rightarrow> error + string" where
  "default_timezone svc =
     (case settings_list svc of
        Inl err \<Rightarrow> Inl err
      | Inr items \<Rightarrow>
         (case filter (\<lambda>s. setting_id s = ''timezone'') items of
            [] \<Rightarrow> Inl IndexError
          | s # _ \<Rightarrow> Inr (setting_value s)))"

text \<open>
  The dictionary comprehension \<open>{cal['summary'] : cal['id'] for cal in calendars ...}\<close>:
  of two calendars with one name the later one stays.
\<close>

definition dict_of_calendars :: "calendar list \<Rightarrow> (string \<rightharpoonup> string)" where
  "dict_of_calendars cals = foldl (\<lambda>m cal. m(cal_summary cal \<mapsto> cal_id cal)) Map.empty cals"

definition linked_calendars :: "service \<Rightarrow> bool \<Rightarrow> error + (string \<rightharpoonup> string)" where
  "linked_calendars svc can_edit =
     (case calendarList_list svc of
        Inl err \<Rightarrow> Inl err
      | Inr calendars \<Rightarrow>
          if can_edit
          then Inr (dict_of_calendars
                     (filter (\<lambda>cal. accessRole cal \<in> {''owner'', ''writer''}) calendars))
          else Inr (dict_of_calendars calendars))"

section \<open>df_cal_format\<close>

text \<open>\<open>column.fillna(value)\<close>, on one cell.\<close>

definition fillna :: "'a option \<Rightarrow> 'a \<Rightarrow> 'a option" where
  "fillna c v = (case c of None \<Rightarrow> Some v | Some x \<Rightarrow> Some x)"

text \<open>The four \<open>fillna\<close> calls of \<open>df_cal_format\<close>, on one row.\<close>

definition fill_defaults :: "string \<Rightarrow> row \<Rightarrow> row" where
  "fill_defaults tz r =
     r\<lparr>start_time_zone := fillna (start_time_zone r) tz,
       end_time_zone := fillna (end_time_zone r) tz,
       description := fillna (description r) [],
       calendar_name := fillna (calendar_name r) ''Primary''\<rparr>"

text \<open>\<open>column.map(calendars)\<close>, on one cell: a name that is no key of the dictionary gives NaN.\<close>

definition map_cell :: "string option \<Rightarrow> (string \<rightharpoonup> string) \<Rightarrow> string option" where
  "map_cell c calendars = (case c of None \<Rightarrow> None | Some name \<Rightarrow> calendars name)"

text \<open>
  \<open>df.apply(f, axis=1)\<close> on a frame with at least one row: \<open>f\<close> on every row in
  order; the first exception ends the call. (On a frame with no row pandas does not call
  \<open>f\<close>; \<open>df_cal_format\<close> below treats that frame apart, and \<open>xlsx_to_calendar\<close>
  never reaches its second \<open>apply\<close> with it.)
\<close>

fun apply_rows :: "('a \<Rightarrow> error + 'b) \<Rightarrow> 'a list \<Rightarrow> error + 'b list" where
  "apply_rows f [] = Inr []"
| "apply_rows f (r # rs) =
     (case f r of
        Inl err \<Rightarrow> Inl err
      | Inr y \<Rightarrow> (case apply_rows f rs of Inl err \<Rightarrow> Inl err | Inr ys \<Rightarrow> Inr (y # ys)))"

text \<open>The new columns \<open>id\<close>, \<open>start\<close> and \<open>end\<close> of one row.\<close>

definition add_columns :: "(string \<rightharpoonup> string) \<Rightarrow> row \<Rightarrow> error + cal_row" where
  "add_columns calendars r =
     (case format_date r of
        Inl err \<Rightarrow> Inl err
      | Inr (s, e) \<Rightarrow>
          Inr (row.extend r \<lparr>row_id = map_cell (calendar_name r) calendars, start = s, end' = e\<rparr>))"

text \<open>
  \<open>df_cal_format(df, service)\<close>. The default time zone is fetched, the four columns
  are filled, the calendars are fetched, the \<open>id\<close> column is looked up, and then
  \<open>df[["start", "end"]] = df.apply(format_date, axis="columns", result_type='expand')\<close>
  is run. On a frame with no row, \<open>apply\<close> with \<open>result_type='expand'\<close> does not
  call \<open>format_date\<close> and gives back a copy of the frame with all its columns, and
  the assignment of these columns to the two keys raises ValueError ("Columns must be
  same length as key"). So a sheet with no row makes \<open>df_cal_format\<close> fail, after the
  two calls to the service.
\<close>

definition df_cal_format :: "row list \<Rightarrow> service \<Rightarrow> error + cal_row list" where
  "df_cal_format df svc =
     (case default_timezone svc of
        Inl err \<Rightarrow> Inl err
      | Inr tz \<Rightarrow>
         (case linked_calendars svc True of
            Inl err \<Rightarrow> Inl err
          | Inr calendars \<Rightarrow>
              if df = [] then Inl ValueError
              else apply_rows (add_columns (calendars(''Primary'' \<mapsto> ''primary'')))
                     (map (fill_defaults tz) df)))"

section \<open>create_new_event and xlsx_to_calendar\<close>

definition create_new_event :: "cal_row \<Rightarrow> service \<Rightarrow> error + string" where
  "create_new_event r svc =
     events_insert svc (of_cell (row_id r))
       \<lparr>body_summary = of_cell (summary r), body_description = of_cell (description r),
        body_start = start r, body_end = end' r\<rparr>"

text \<open>
  \<open>xlsx_to_calendar\<close>, from the point where the service is connected and the sheet is
  read: the service and the rows are its inputs here.
\<close>

definition xlsx_to_calendar :: "service \<Rightarrow> row list \<Rightarrow> error + string list" where
  "xlsx_to_calendar svc df =
     (case df_cal_format df svc of
        Inl err \<Rightarrow> Inl err
      | Inr df' \<Rightarrow> apply_rows (\<lambda>r. create_new_event r svc) df')"

section \<open>Reading the wire format\<close>

text \<open>
  The shapes \<open>YYYY-MM-DD\<close> and \<open>YYYY-MM-DDTHH:MM:SS\<close> of the strings that the service
  receives, and the reading of such a string back into a datetime
  (\<open>datetime.fromisoformat\<close>).
\<close>

definition is_digit :: "char \<Rightarrow> bool" where
  "is_digit c = (c \<in> set ''0123456789'')"

definition is_iso_date :: "string \<Rightarrow> bool" where
  "is_iso_date s =
     (length s = 10 \<and> list_all is_digit (take 4 s) \<and> s ! 4 = CHR ''-'' \<and>
      list_all is_digit (take 2 (drop 5 s)) \<and> s ! 7 = CHR ''-'' \<and>
      list_all is_digit (drop 8 s))"

definition is_iso_time :: "string \<Rightarrow> bool" where
  "is_iso_time s =
     (length s = 8 \<and> list_all is_digit (take 2 s) \<and> s ! 2 = CHR '':'' \<and>
      list_all is_digit (take 2 (drop 3 s)) \<and> s ! 5 = CHR '':'' \<and>
      list_all is_digit (drop 6 s))"

definition is_iso_datetime :: "string \<Rightarrow> bool" where
  "is_iso_datetime s =
     (length s = 19 \<and> is_iso_date (take 10 s) \<and> s ! 10 = CHR ''T'' \<and> is_iso_time (drop 11 s))"

definition digit_val :: "char \<Rightarrow> int" where
  "digit_val c = int (of_char c) - 48"

definition int_of_digits :: "string \<Rightarrow> int" where
  "int_of_digits s = foldl (\<lambda>a c. 10 * a + digit_val c) 0 s"

definition fromisoformat :: "string \<Rightarrow> error + datetime" where
  "fromisoformat s =
     (if is_iso_datetime s
      then datetime_new (int_of_digits (take 4 s)) (int_of_digits (take 2 (drop 5 s)))
             (int_of_digits (take 2 (drop 8 s))) (int_of_digits (take 2 (drop 11 s)))
             (int_of_digits (take 2 (drop 14 s))) (int_of_digits (take 2 (drop 17 s))) 0
      else Inl ValueError)"

text \<open>The two shapes of one side (\<open>start\<close> or \<open>end\<close>) of an event.\<close>

fun all_day_side :: "dict \<Rightarrow> bool" where
  "all_day_side [(k, Str v)] = (k = ''date'' \<and> is_iso_date v)"
| "all_day_side _ = False"

fun timed_side :: "dict \<Rightarrow> bool" where
  "timed_side [(k, Str v), (k', Str z)] =
     (k = ''dateTime'' \<and> is_iso_datetime v \<and> k' = ''timeZone'')"
| "timed_side _ = False"

text \<open>
  The instant that has the calendar day of the date cell \<open>d\<close> and the hour and minute of
  the time cell \<open>t\<close>, at second 0.
\<close>

definition combine :: "datetime \<Rightarrow> time \<Rightarrow> datetime" where
  "combine d t =
     \<lparr>year = year d, month = month d, day = day d,
      hour = t_hour t, minute = t_minute t, second = 0, microsecond = 0\<rparr>"

text \<open>
  The one instant to which no hour can be added: the last hour of 9999-12-31.
\<close>

definition last_hour :: "datetime \<Rightarrow> bool" where
  "last_hour x = (year x = MAXYEAR \<and> month x = 12 \<and> day x = 31 \<and> hour x = 23)"

text \<open>
  A row whose date and time cells, where they are not blank, hold well-formed objects.
\<close>

definition valid_row :: "row \<Rightarrow> bool" where
  "valid_row r =
     ((case start_date r of None \<Rightarrow> True | Some d \<Rightarrow> valid_datetime d) \<and>
      (case start_time r of None \<Rightarrow> True | Some t \<Rightarrow> valid_time t) \<and>
      (case end_date r of None \<Rightarrow> True | Some d \<Rightarrow> valid_datetime d) \<and>
      (case end_time r of None \<Rightarrow> True | Some t \<Rightarrow> valid_time t))"

section \<open>Example data\<close>

definition day_2024_03_01 :: datetime where
  "day_2024_03_01 =
     \<lparr>year = 2024, month = 3, day = 1, hour = 0, minute = 0, second = 0, microsecond = 0\<rparr>"

definition day_2024_03_03 :: datetime where
  "day_2024_03_03 =
     \<lparr>year = 2024, month = 3, day = 3, hour = 0, minute = 0, second = 0, microsecond = 0\<rparr>"

definition time_23_30 :: time where
  "time_23_30 = \<lparr>t_hour = 23, t_minute = 30, t_second = 15, t_microsecond = 0\<rparr>"

definition time_00_30 :: time where
  "time_00_30 = \<lparr>t_hour = 0, t_minute = 30, t_second = 0, t_microsecond = 0\<rparr>"

text \<open>A timed row on 2024-03-01 at 23:30:15 with neither End Date nor End Time.\<close>

definition example_row :: row where
  "example_row =
     \<lparr>summary = Some ''Dinner'', description = None,
      start_date = Some day_2024_03_01, start_time = Some time_23_30,
      end_date = None, end_time = None,
      start_time_zone = Some ''Europe/Paris'', end_time_zone = None,
      calendar_name = None\<rparr>"

text \<open>
  A service whose calendar list holds a calendar that is itself named "Primary", a
  writable calendar "Work" and a read-only calendar, and that rejects an event whose
  calendar id is NaN.
\<close>

definition example_calendars :: "calendar list" where
  "example_calendars =
     [\<lparr>cal_summary = ''Primary'', cal_id = ''abc@group.calendar'', accessRole = ''owner''\<rparr>,
      \<lparr>cal_summary = ''Work'', cal_id = ''work@group.calendar'', accessRole = ''writer''\<rparr>,
      \<lparr>cal_summary = ''Holidays'', cal_id = ''holidays@group.calendar'', accessRole = ''reader''\<rparr>]"

definition example_service :: service where
  "example_service =
     \<lparr>settings_list =
        Inr [\<lparr>setting_id = ''locale'', setting_value = ''en''\<rparr>,
             \<lparr>setting_id = ''timezone'', setting_value = ''Europe/Paris''\<rparr>],
      calendarList_list = Inr example_calendars,
      events_insert = (\<lambda>calendarId body.
         if calendarId = NaN then Inl (HttpError ''Not Found'') else Inr ''created'')\<rparr>"

section \<open>Auxiliary facts\<close>

subsection \<open>Decimal formatting\<close>

lemma digit_char_cases: "n < 10 \<Longrightarrow> n \<in> {0, 1, 2, 3, 4, 5, 6, 7, 8, 9 :: nat}"
  unfolding insert_iff empty_iff by arith

lemma is_digit_digit_char: "n < 10 \<Longrightarrow> is_digit (digit_char n)"
  using digit_char_cases[of n] by (auto simp: is_digit_def digit_char_def)

lemma digit_val_digit_char: "n < 10 \<Longrightarrow> digit_val (digit_char n) = int n"
  using digit_char_cases[of n] by (auto simp: digit_val_def digit_char_def)

lemma str_nat_1: "n < 10 \<Longrightarrow> str_nat n = [digit_char n]"
  by (simp add: str_nat.simps)

lemma str_nat_2: "10 \<le> n \<Longrightarrow> n < 100 \<Longrightarrow> str_nat n = [digit_char (n div 10), digit_char (n mod 10)]"
  by (subst str_nat.simps) (simp add: str_nat_1)

lemma str_nat_3: "100 \<le> n \<Longrightarrow> n < 1000 \<Longrightarrow>
  str_nat n = [digit_char (n div 10 div 10), digit_char (n div 10 mod 10), digit_char (n mod 10)]"
proof -
  assume a: "100 \<le> n" "n < 1000"
  have b: "10 \<le> n div 10" "n div 10 < 100" using a by auto
  show ?thesis
    using a by (subst str_nat.simps) (simp add: str_nat_2[OF b])
qed

lemma str_nat_4: "1000 \<le> n \<Longrightarrow> n < 10000 \<Longrightarrow>
  str_nat n = [digit_char (n div 10 div 10 div 10), digit_char (n div 10 div 10 mod 10),
               digit_char (n div 10 mod 10), digit_char (n mod 10)]"
proof -
  assume a: "1000 \<le> n" "n < 10000"
  have b: "100 \<le> n div 10" "n div 10 < 1000" using a by auto
  show ?thesis
    using a by (subst str_nat.simps) (simp add: str_nat_3[OF b])
qed

lemma digit_char_0: "digit_char 0 = CHR ''0''"
  by (simp add: digit_char_def)

lemma zfill_2: "n < 100 \<Longrightarrow> zfill 2 (str_nat n) = [digit_char (n div 10), digit_char (n mod 10)]"
  by (cases "n < 10") (simp_all add: zfill_def str_nat_1 str_nat_2 digit_char_0)

lemma replicate_3: "replicate 3 c = [c, c, c]"
  by (simp add: numeral_3_eq_3)

lemma replicate_2: "replicate 2 c = [c, c]"
  by (simp add: numeral_2_eq_2)

lemma zfill_4: "n < 10000 \<Longrightarrow> zfill 4 (str_nat n) =
   [digit_char (n div 10 div 10 div 10), digit_char (n div 10 div 10 mod 10),
    digit_char (n div 10 mod 10), digit_char (n mod 10)]"
proof -
  assume n: "n < 10000"
  consider "n < 10" | "10 \<le> n" "n < 100" | "100 \<le> n" "n < 1000" | "1000 \<le> n" by linarith
  then show ?thesis
  proof cases
    case 1 then show ?thesis by (simp add: zfill_def str_nat_1 digit_char_0 replicate_3)
  next
    case 2
    then have "n div 10 div 10 = 0" by simp
    with 2 show ?thesis by (simp add: zfill_def str_nat_2 digit_char_0 replicate_2)
  next
    case 3
    then have "n div 10 div 10 div 10 = 0" by simp
    with 3 show ?thesis by (simp add: zfill_def str_nat_3 digit_char_0)
  next
    case 4 then show ?thesis using n by (simp add: zfill_def str_nat_4)
  qed
qed

lemma fmt_0d_2: "0 \<le> n \<Longrightarrow> n < 100 \<Longrightarrow>
   fmt_0d 2 n = [digit_char (nat n div 10), digit_char (nat n mod 10)]"
  by (simp add: fmt_0d_def zfill_2)

lemma fmt_0d_4: "0 \<le> n \<Longrightarrow> n < 10000 \<Longrightarrow>
   fmt_0d 4 n = [digit_char (nat n div 10 div 10 div 10), digit_char (nat n div 10 div 10 mod 10),
                 digit_char (nat n div 10 mod 10), digit_char (nat n mod 10)]"
  by (simp add: fmt_0d_def zfill_4)

lemma length_fmt_2: "0 \<le> n \<Longrightarrow> n < 100 \<Longrightarrow> length (fmt_0d 2 n) = 2"
  by (simp add: fmt_0d_2)

lemma length_fmt_4: "0 \<le> n \<Longrightarrow> n < 10000 \<Longrightarrow> length (fmt_0d 4 n) = 4"
  by (simp add: fmt_0d_4)

lemma horner_int: "int m = 10 * int (m div 10) + int (m mod 10)"
  by (simp add: zdiv_int zmod_int)

lemma int_of_digits_2: "0 \<le> n \<Longrightarrow> n < 100 \<Longrightarrow> int_of_digits (fmt_0d 2 n) = n"
proof -
  assume a: "0 \<le> n" "n < 100"
  have b: "nat n div 10 < 10" "nat n mod 10 < 10" using a by auto
  have "int_of_digits (fmt_0d 2 n) = 10 * int (nat n div 10) + int (nat n mod 10)"
    using a b by (simp add: fmt_0d_2 int_of_digits_def digit_val_digit_char)
  also have "\<dots> = int (nat n)" using horner_int[of "nat n"] by simp
  finally show ?thesis using a by simp
qed

lemma int_of_digits_4: "0 \<le> n \<Longrightarrow> n < 10000 \<Longrightarrow> int_of_digits (fmt_0d 4 n) = n"
proof -
  assume a: "0 \<le> n" "n < 10000"
  define m where "m = nat n"
  have b: "m div 10 div 10 div 10 < 10" "m div 10 div 10 mod 10 < 10" "m div 10 mod 10 < 10" "m mod 10 < 10"
    using a by (auto simp: m_def)
  have "int_of_digits (fmt_0d 4 n) =
     1000 * int (m div 10 div 10 div 10) + 100 * int (m div 10 div 10 mod 10) +
     10 * int (m div 10 mod 10) + int (m mod 10)"
    using a b by (simp add: fmt_0d_4 int_of_digits_def digit_val_digit_char m_def[symmetric])
  also have "\<dots> = int m"
    using horner_int[of m] horner_int[of "m div 10"] horner_int[of "m div 10 div 10"] by linarith
  finally show ?thesis using a by (simp add: m_def)
qed

subsection \<open>The shape of the formatted strings\<close>

lemma month_cases:
  "1 \<le> m \<Longrightarrow> m \<le> 12 \<Longrightarrow> m \<in> {1, 2, 3, 4, 5, 6, 7, 8, 9, 10, 11, 12 :: int}"
  unfolding insert_iff empty_iff by arith

lemma days_in_month_le: "1 \<le> m \<Longrightarrow> m \<le> 12 \<Longrightarrow> days_in_month y m \<le> 31"
  using month_cases[of m] by (auto simp: days_in_month_def DAYS_IN_MONTH_def)

lemma check_date_fields_bounds:
  "check_date_fields y m d \<Longrightarrow> 0 \<le> y \<and> y < 10000 \<and> 0 \<le> m \<and> m < 100 \<and> 0 \<le> d \<and> d < 100"
  using days_in_month_le[of m y] by (auto simp: check_date_fields_def MINYEAR_def MAXYEAR_def)

lemma check_time_fields_bounds:
  "check_time_fields h mi s us \<Longrightarrow> 0 \<le> h \<and> h < 100 \<and> 0 \<le> mi \<and> mi < 100 \<and> 0 \<le> s \<and> s < 100"
  by (auto simp: check_time_fields_def)

lemma is_iso_date_ymd:
  assumes "0 \<le> y" "y < 10000" "0 \<le> m" "m < 100" "0 \<le> d" "d < 100"
  shows "is_iso_date (fmt_0d 4 y @ CHR ''-'' # fmt_0d 2 m @ CHR ''-'' # fmt_0d 2 d)"
  using assms by (simp add: is_iso_date_def fmt_0d_4 fmt_0d_2 is_digit_digit_char)

lemma is_iso_time_hms:
  assumes "0 \<le> h" "h < 100" "0 \<le> m" "m < 100" "0 \<le> s" "s < 100"
  shows "is_iso_time (fmt_0d 2 h @ CHR '':'' # fmt_0d 2 m @ CHR '':'' # fmt_0d 2 s)"
  using assms by (simp add: is_iso_time_def fmt_0d_2 is_digit_digit_char)

lemma is_iso_date_isoformat:
  "check_date_fields (year d) (month d) (day d) \<Longrightarrow> is_iso_date (date_isoformat (date_of d))"
  using check_date_fields_bounds[of "year d" "month d" "day d"]
  by (simp add: date_isoformat_def date_of_def is_iso_date_ymd)

lemma datetime_isoformat_split:
  "microsecond x = 0 \<Longrightarrow> datetime_isoformat x =
     (fmt_0d 4 (year x) @ CHR ''-'' # fmt_0d 2 (month x) @ CHR ''-'' # fmt_0d 2 (day x)) @ CHR ''T'' #
     (fmt_0d 2 (hour x) @ CHR '':'' # fmt_0d 2 (minute x) @ CHR '':'' # fmt_0d 2 (second x))"
  by (simp add: datetime_isoformat_def)

lemma is_iso_datetime_append:
  assumes "is_iso_date D" "is_iso_time T"
  shows "is_iso_datetime (D @ CHR ''T'' # T)"
proof -
  have "length D = 10" "length T = 8"
    using assms by (simp_all add: is_iso_date_def is_iso_time_def)
  then show ?thesis
    using assms by (simp add: is_iso_datetime_def nth_append)
qed

lemma is_iso_datetime_isoformat:
  assumes "valid_datetime x" "microsecond x = 0"
  shows "is_iso_datetime (datetime_isoformat x)"
proof -
  from assms(1) have d: "check_date_fields (year x) (month x) (day x)"
    and t: "check_time_fields (hour x) (minute x) (second x) (microsecond x)"
    by (simp_all add: valid_datetime_def)
  show ?thesis
    unfolding datetime_isoformat_split[OF assms(2)]
    using check_date_fields_bounds[OF d] check_time_fields_bounds[OF t]
    by (intro is_iso_datetime_append is_iso_date_ymd is_iso_time_hms) simp_all
qed

lemma fromisoformat_fields:
  assumes "length Y = 4" "length M = 2" "length D = 2" "length h = 2" "length mi = 2" "length s = 2"
  defines "str \<equiv> (Y @ CHR ''-'' # M @ CHR ''-'' # D) @ CHR ''T'' # (h @ CHR '':'' # mi @ CHR '':'' # s)"
  shows "take 4 str = Y" "take 2 (drop 5 str) = M" "take 2 (drop 8 str) = D"
    "take 2 (drop 11 str) = h" "take 2 (drop 14 str) = mi" "take 2 (drop 17 str) = s"
  using assms by simp_all

lemma fromisoformat_isoformat:
  assumes "valid_datetime x" "microsecond x = 0"
  shows "fromisoformat (datetime_isoformat x) = Inr x"
proof -
  from assms(1) have d: "check_date_fields (year x) (month x) (day x)"
    and t: "check_time_fields (hour x) (minute x) (second x) (microsecond x)"
    by (simp_all add: valid_datetime_def)
  note bd = check_date_fields_bounds[OF d] and bt = check_time_fields_bounds[OF t]
  have len: "length (fmt_0d 4 (year x)) = 4" "length (fmt_0d 2 (month x)) = 2"
    "length (fmt_0d 2 (day x)) = 2" "length (fmt_0d 2 (hour x)) = 2"
    "length (fmt_0d 2 (minute x)) = 2" "length (fmt_0d 2 (second x)) = 2"
    using bd bt by (simp_all add: length_fmt_4 length_fmt_2)
  have num: "int_of_digits (fmt_0d 4 (year x)) = year x" "int_of_digits (fmt_0d 2 (month x)) = month x"
    "int_of_digits (fmt_0d 2 (day x)) = day x" "int_of_digits (fmt_0d 2 (hour x)) = hour x"
    "int_of_digits (fmt_0d 2 (minute x)) = minute x" "int_of_digits (fmt_0d 2 (second x)) = second x"
    using bd bt by (simp_all add: int_of_digits_4 int_of_digits_2)
  define str where "str = datetime_isoformat x"
  have eq: "str = (fmt_0d 4 (year x) @ CHR ''-'' # fmt_0d 2 (month x) @ CHR ''-'' # fmt_0d 2 (day x)) @ CHR ''T'' #
     (fmt_0d 2 (hour x) @ CHR '':'' # fmt_0d 2 (minute x) @ CHR '':'' # fmt_0d 2 (second x))"
    unfolding str_def using assms(2) by (rule datetime_isoformat_split)
  have fields: "take 4 str = fmt_0d 4 (year x)" "take 2 (drop 5 str) = fmt_0d 2 (month x)"
    "take 2 (drop 8 str) = fmt_0d 2 (day x)" "take 2 (drop 11 str) = fmt_0d 2 (hour x)"
    "take 2 (drop 14 str) = fmt_0d 2 (minute x)" "take 2 (drop 17 str) = fmt_0d 2 (second x)"
    unfolding eq by (rule fromisoformat_fields[OF len])+
  have iso: "is_iso_datetime str"
    unfolding str_def using assms by (rule is_iso_datetime_isoformat)
  have "fromisoformat str = Inr x"
    unfolding fromisoformat_def
    using iso d t assms(2) by (simp add: fields num datetime_new_def)
  then show ?thesis by (simp add: str_def)
qed

subsection \<open>Calendar arithmetic\<close>

lemma div_pred:
  fixes y k :: int
  assumes "0 < k"
  shows "y div k = (y - 1) div k + (if y mod k = 0 then 1 else 0)"
proof (cases "y mod k = 0")
  case True
  have "y - 1 = k * (y div k - 1) + (k - 1)"
    using True mult_div_mod_eq[of k y] by (simp add: algebra_simps)
  then have "(y - 1) div k = y div k - 1"
    using assms by (intro int_div_pos_eq[where r = "k - 1"]) simp_all
  with True show ?thesis by simp
next
  case False
  have r: "0 \<le> y mod k" "y mod k < k" using assms by simp_all
  have "y - 1 = k * (y div k) + (y mod k - 1)"
    using mult_div_mod_eq[of k y] by simp
  then have "(y - 1) div k = y div k"
    using assms r False by (intro int_div_pos_eq[where r = "y mod k - 1"]) simp_all
  with False show ?thesis by simp
qed

lemma mod_100_4: "(y::int) mod 100 = 0 \<Longrightarrow> y mod 4 = 0"
proof -
  assume "y mod 100 = 0"
  then have "100 dvd y" by (simp add: mod_eq_0_iff_dvd)
  moreover have "(4::int) dvd 100" by simp
  ultimately have "4 dvd y" using dvd_trans by blast
  then show ?thesis by (simp add: mod_eq_0_iff_dvd)
qed

lemma mod_400_100: "(y::int) mod 400 = 0 \<Longrightarrow> y mod 100 = 0"
proof -
  assume "y mod 400 = 0"
  then have "400 dvd y" by (simp add: mod_eq_0_iff_dvd)
  moreover have "(100::int) dvd 400" by simp
  ultimately have "100 dvd y" using dvd_trans by blast
  then show ?thesis by (simp add: mod_eq_0_iff_dvd)
qed

lemma days_before_year_Suc:
  "days_before_year (y + 1) = days_before_year y + (if is_leap y then 366 else 365)"
proof -
  define b4 b100 b400 :: int where "b4 = (if y mod 4 = 0 then 1 else 0)"
    and "b100 = (if y mod 100 = 0 then 1 else 0)" and "b400 = (if y mod 400 = 0 then 1 else 0)"
  have q: "y div 4 = (y - 1) div 4 + b4" "y div 100 = (y - 1) div 100 + b100"
    "y div 400 = (y - 1) div 400 + b400"
    unfolding b4_def b100_def b400_def by (rule div_pred, simp)+
  have n: "days_before_year (y + 1) = y * 365 + y div 4 - y div 100 + y div 400"
    by (simp add: days_before_year_def)
  have p: "days_before_year y = (y - 1) * 365 + (y - 1) div 4 - (y - 1) div 100 + (y - 1) div 400"
    by (simp add: days_before_year_def Let_def)
  have "days_before_year (y + 1) = days_before_year y + (365 + b4 - b100 + b400)"
    using q n p by (simp add: algebra_simps)
  moreover have "365 + b4 - b100 + b400 = (if is_leap y then 366 else 365)"
    using mod_100_4[of y] mod_400_100[of y]
    by (cases "y mod 4 = 0"; cases "y mod 100 = 0"; cases "y mod 400 = 0")
       (simp_all add: is_leap_def b4_def b100_def b400_def)
  ultimately show ?thesis by simp
qed

lemma days_before_month_Suc:
  "1 \<le> m \<Longrightarrow> m < 12 \<Longrightarrow> days_before_month y (m + 1) = days_before_month y m + days_in_month y m"
  using month_cases[of m]
  by (auto simp: days_before_month_def days_in_month_def DAYS_BEFORE_MONTH_def DAYS_IN_MONTH_def)

lemma days_in_month_ge: "1 \<le> m \<Longrightarrow> m \<le> 12 \<Longrightarrow> 28 \<le> days_in_month y m"
  using month_cases[of m] by (auto simp: days_in_month_def DAYS_IN_MONTH_def)

lemma days_in_month_12: "days_in_month y 12 = 31"
  by (simp add: days_in_month_def DAYS_IN_MONTH_def)

lemma days_in_month_1: "days_in_month y 1 = 31"
  by (simp add: days_in_month_def DAYS_IN_MONTH_def)

lemma days_before_month_1: "days_before_month y 1 = 0"
  by (simp add: days_before_month_def DAYS_BEFORE_MONTH_def)

lemma days_before_month_12: "days_before_month y 12 = (if is_leap y then 335 else 334)"
  by (simp add: days_before_month_def DAYS_BEFORE_MONTH_def)

lemma next_day_ordinal:
  assumes "check_date_fields (year x) (month x) (day x)" "next_day x = Inr z"
  shows "toordinal z = toordinal x + 1"
proof -
  from assms(1) have m: "1 \<le> month x" "month x \<le> 12" and dd: "1 \<le> day x" "day x \<le> days_in_month (year x) (month x)"
    by (simp_all add: check_date_fields_def)
  consider (a) "day x < days_in_month (year x) (month x)"
    | (b) "day x = days_in_month (year x) (month x)" "month x < 12"
    | (c) "day x = days_in_month (year x) (month x)" "month x = 12" "year x < MAXYEAR"
    | (d) "day x = days_in_month (year x) (month x)" "month x = 12" "\<not> year x < MAXYEAR"
    using m dd by linarith
  then show ?thesis
  proof cases
    case a
    with assms(2) show ?thesis by (auto simp: next_day_def toordinal_def ymd2ord_def)
  next
    case b
    with assms(2) have "z = x\<lparr>month := month x + 1, day := 1\<rparr>" by (simp add: next_day_def)
    then show ?thesis using b m
      by (simp add: toordinal_def ymd2ord_def days_before_month_Suc)
  next
    case c
    with assms(2) have "z = x\<lparr>year := year x + 1, month := 1, day := 1\<rparr>" by (simp add: next_day_def)
    then show ?thesis using c
      by (simp add: toordinal_def ymd2ord_def days_before_year_Suc days_before_month_1
          days_before_month_12 days_in_month_12)
  next
    case d
    with assms(2) show ?thesis by (simp add: next_day_def)
  qed
qed

lemma next_day_valid:
  assumes "valid_datetime x" "next_day x = Inr z"
  shows "valid_datetime z"
proof -
  from assms(1) have m: "1 \<le> month x" "month x \<le> 12" and y: "MINYEAR \<le> year x" "year x \<le> MAXYEAR"
    and dd: "1 \<le> day x" "day x \<le> days_in_month (year x) (month x)"
    by (simp_all add: valid_datetime_def check_date_fields_def)
  have g: "\<And>y m. 1 \<le> m \<Longrightarrow> m \<le> 12 \<Longrightarrow> 1 \<le> days_in_month y m"
  proof -
    fix y m :: int
    assume "1 \<le> m" "m \<le> 12"
    then show "1 \<le> days_in_month y m" using days_in_month_ge[of m y] by linarith
  qed
  show ?thesis
    using assms m y dd g[of "month x + 1" "year x"]
    by (auto simp: next_day_def valid_datetime_def check_date_fields_def days_in_month_1 MINYEAR_def
        split: if_splits)
qed

lemma next_day_date_changes:
  assumes "check_date_fields (year x) (month x) (day x)" "next_day x = Inr z"
  shows "date_of z \<noteq> date_of x"
  using assms by (auto simp: next_day_def date_of_def split: if_splits)

lemma next_day_time:
  "next_day x = Inr z \<Longrightarrow>
   hour z = hour x \<and> minute z = minute x \<and> second z = second x \<and> microsecond z = microsecond x"
  by (auto simp: next_day_def split: if_splits)

lemma add_one_hour_seconds:
  assumes "valid_datetime x" "add_one_hour x = Inr e"
  shows "total_seconds e = total_seconds x + 3600"
proof (cases "hour x < 23")
  case True
  with assms(2) show ?thesis by (auto simp: add_one_hour_def total_seconds_def toordinal_def)
next
  case False
  with assms(1) have h: "hour x = 23" by (simp add: valid_datetime_def check_time_fields_def)
  from False assms(2) have nd: "next_day (x\<lparr>hour := 0\<rparr>) = Inr e" by (simp add: add_one_hour_def)
  have "check_date_fields (year (x\<lparr>hour := 0\<rparr>)) (month (x\<lparr>hour := 0\<rparr>)) (day (x\<lparr>hour := 0\<rparr>))"
    using assms(1) by (simp add: valid_datetime_def)
  from next_day_ordinal[OF this nd] next_day_time[OF nd] h
  show ?thesis by (simp add: total_seconds_def toordinal_def)
qed

lemma add_one_hour_valid:
  assumes "valid_datetime x" "add_one_hour x = Inr e"
  shows "valid_datetime e"
proof (cases "hour x < 23")
  case True
  with assms show ?thesis by (auto simp: add_one_hour_def valid_datetime_def check_time_fields_def)
next
  case False
  from False assms(2) have nd: "next_day (x\<lparr>hour := 0\<rparr>) = Inr e" by (simp add: add_one_hour_def)
  have "valid_datetime (x\<lparr>hour := 0\<rparr>)"
    using assms(1) by (simp add: valid_datetime_def check_time_fields_def)
  then show ?thesis using nd by (rule next_day_valid)
qed

lemma add_one_hour_same_day:
  assumes "valid_datetime x" "add_one_hour x = Inr e"
  shows "(date_of e = date_of x) = (hour x < 23)"
proof (cases "hour x < 23")
  case True
  with assms show ?thesis by (auto simp: add_one_hour_def date_of_def)
next
  case False
  from False assms(2) have nd: "next_day (x\<lparr>hour := 0\<rparr>) = Inr e" by (simp add: add_one_hour_def)
  have "check_date_fields (year (x\<lparr>hour := 0\<rparr>)) (month (x\<lparr>hour := 0\<rparr>)) (day (x\<lparr>hour := 0\<rparr>))"
    using assms(1) by (simp add: valid_datetime_def)
  from next_day_date_changes[OF this nd] False show ?thesis by (simp add: date_of_def)
qed

lemma add_one_hour_fields:
  "add_one_hour x = Inr e \<Longrightarrow> minute e = minute x \<and> second e = second x \<and> microsecond e = microsecond x"
  by (auto simp: add_one_hour_def next_day_def split: if_splits)

lemma add_one_hour_overflow:
  assumes "valid_datetime x"
  shows "add_one_hour x = Inl OverflowError \<longleftrightarrow> last_hour x"
  using assms days_in_month_12[of "year x"]
  by (auto simp: add_one_hour_def next_day_def last_hour_def valid_datetime_def check_date_fields_def
      check_time_fields_def)

lemma add_one_hour_result:
  assumes "valid_datetime x" "\<not> last_hour x"
  shows "\<exists>e. add_one_hour x = Inr e"
  using assms days_in_month_12[of "year x"]
  by (auto simp: add_one_hour_def next_day_def last_hour_def valid_datetime_def check_date_fields_def
      check_time_fields_def)

subsection \<open>The branches of format_date\<close>

lemma valid_combine: "valid_datetime d \<Longrightarrow> valid_time t \<Longrightarrow> valid_datetime (combine d t)"
  by (simp add: valid_datetime_def valid_time_def combine_def check_time_fields_def)

lemma datetime_new_combine:
  "valid_datetime d \<Longrightarrow> valid_time t \<Longrightarrow>
   datetime_new (year d) (month d) (day d) (t_hour t) (t_minute t) 0 0 = Inr (combine d t)"
  by (simp add: datetime_new_def valid_datetime_def valid_time_def combine_def check_time_fields_def)

lemma combine_fields:
  "year (combine d t) = year d" "month (combine d t) = month d" "day (combine d t) = day d"
  "hour (combine d t) = t_hour t" "minute (combine d t) = t_minute t"
  "second (combine d t) = 0" "microsecond (combine d t) = 0"
  by (simp_all add: combine_def)

lemma all_day_result:
  assumes "start_date row = Some d" "start_time row = None"
  shows "format_date row =
     Inr ([(''date'', Str (date_isoformat (date_of d)))],
          [(''date'', Str (case end_date row of
                             None \<Rightarrow> date_isoformat (date_of d)
                           | Some e \<Rightarrow> date_isoformat (date_of e)))])"
  using assms by (simp add: format_date_def Let_def split: option.splits)

lemma format_date_timed_no_end_time:
  assumes "start_date row = Some d" "valid_datetime d" "start_time row = Some t" "valid_time t"
    "end_time row = None"
  shows "format_date row =
     (case add_one_hour (combine d t) of
        Inl err \<Rightarrow> Inl err
      | Inr e \<Rightarrow> Inr ([(''dateTime'', Str (datetime_isoformat (combine d t))),
                       (''timeZone'', of_cell (start_time_zone row))],
                      [(''dateTime'', Str (datetime_isoformat e)),
                       (''timeZone'', of_cell (end_time_zone row))]))"
  using assms by (simp add: format_date_def datetime_new_combine)

lemma format_date_timed_end_time:
  assumes "start_date row = Some d" "valid_datetime d" "start_time row = Some t" "valid_time t"
    "end_time row = Some t'" "valid_time t'"
    "d' = (case end_date row of None \<Rightarrow> d | Some x \<Rightarrow> x)" "valid_datetime d'"
  shows "format_date row =
     Inr ([(''dateTime'', Str (datetime_isoformat (combine d t))),
           (''timeZone'', of_cell (start_time_zone row))],
          [(''dateTime'', Str (datetime_isoformat (combine d' t'))),
           (''timeZone'', of_cell (end_time_zone row))])"
  using assms by (cases "end_date row") (simp_all add: format_date_def datetime_new_combine)


subsection \<open>The rows of df_cal_format\<close>

lemma apply_rows_Inr:
  "apply_rows f xs = Inr ys \<Longrightarrow> length ys = length xs \<and> (\<forall>i < length xs. f (xs ! i) = Inr (ys ! i))"
proof (induction xs arbitrary: ys)
  case Nil
  then show ?case by simp
next
  case (Cons x xs)
  from Cons.prems obtain y ys' where y: "f x = Inr y" and r: "apply_rows f xs = Inr ys'" and ys: "ys = y # ys'"
    by (auto split: sum.splits)
  from Cons.IH[OF r] have "length ys' = length xs" and nth: "\<forall>i < length xs. f (xs ! i) = Inr (ys' ! i)"
    by simp_all
  show ?case
  proof (intro conjI allI impI)
    show "length ys = length (x # xs)" using ys \<open>length ys' = length xs\<close> by simp
  next
    fix i assume "i < length (x # xs)"
    then show "f ((x # xs) ! i) = Inr (ys ! i)"
      using y nth ys by (cases i) simp_all
  qed
qed

lemma apply_rows_total:
  "list_all (\<lambda>x. \<not> isl (f x)) xs \<Longrightarrow> \<exists>ys. apply_rows f xs = Inr ys"
proof (induction xs)
  case Nil
  then show ?case by simp
next
  case (Cons x xs)
  then obtain ys where "apply_rows f xs = Inr ys" by auto
  moreover from Cons.prems obtain y where "f x = Inr y" by (cases "f x") simp_all
  ultimately show ?case by simp
qed

lemma df_cal_format_Inr:
  assumes "df_cal_format df svc = Inr df'"
  obtains tz calendars where "default_timezone svc = Inr tz" "linked_calendars svc True = Inr calendars"
    "apply_rows (add_columns (calendars(''Primary'' \<mapsto> ''primary''))) (map (fill_defaults tz) df) = Inr df'"
  using assms by (auto simp: df_cal_format_def split: sum.splits if_splits)

lemma add_columns_Inr:
  "add_columns calendars r = Inr r' \<Longrightarrow>
   format_date r = Inr (start r', end' r') \<and> row_id r' = map_cell (calendar_name r) calendars \<and>
   summary r' = summary r \<and> description r' = description r"
  by (auto simp: add_columns_def row.defs split: sum.splits)

lemma add_columns_isl: "isl (add_columns calendars r) = isl (format_date r)"
  by (auto simp: add_columns_def split: sum.splits)

lemma dict_of_calendars_foldl:
  "foldl (\<lambda>m cal. m(cal_summary cal \<mapsto> cal_id cal)) m0 cals name = None \<longleftrightarrow>
   m0 name = None \<and> name \<notin> cal_summary ` set cals"
  by (induction cals arbitrary: m0) auto

lemma dict_of_calendars_None:
  "dict_of_calendars cals name = None \<longleftrightarrow> name \<notin> cal_summary ` set cals"
  by (simp add: dict_of_calendars_def dict_of_calendars_foldl)


lemma df_cal_format_total:
  assumes "default_timezone svc = Inr tz" "linked_calendars svc True = Inr calendars"
    "list_all (\<lambda>r. \<not> isl (format_date (fill_defaults tz r))) df" "df \<noteq> []"
  shows "\<exists>df'. df_cal_format df svc = Inr df'"
proof -
  have "list_all (\<lambda>r. \<not> isl (add_columns (calendars(''Primary'' \<mapsto> ''primary'')) r))
          (map (fill_defaults tz) df)"
    using assms(3) by (simp add: list_all_iff add_columns_isl)
  from apply_rows_total[OF this] show ?thesis
    using assms(1,2,4) by (simp add: df_cal_format_def)
qed

lemma df_cal_format_empty:
  assumes "default_timezone svc = Inr tz" "linked_calendars svc True = Inr calendars"
  shows "df_cal_format [] svc = Inl ValueError"
  using assms by (simp add: df_cal_format_def)

lemma df_cal_format_nonempty: "df_cal_format df svc = Inr df' \<Longrightarrow> df \<noteq> [] \<and> df' \<noteq> []"
proof -
  assume a: "df_cal_format df svc = Inr df'"
  then have ne: "df \<noteq> []"
    by (auto simp: df_cal_format_def split: sum.splits if_splits)
  from a obtain tz calendars where
    "apply_rows (add_columns (calendars(''Primary'' \<mapsto> ''primary''))) (map (fill_defaults tz) df) = Inr df'"
    by (rule df_cal_format_Inr)
  from apply_rows_Inr[OF this] have "length df' = length df" by simp
  with ne show ?thesis by auto
qed

lemma all_day_not_timed: "all_day_side s \<Longrightarrow> \<not> timed_side s"
  by (cases s rule: all_day_side.cases) simp_all

lemma is_iso_date_valid: "valid_datetime d \<Longrightarrow> is_iso_date (date_isoformat (date_of d))"
  by (simp add: is_iso_date_isoformat valid_datetime_def)

lemma valid_rowD:
  assumes "valid_row r"
  shows "start_date r = Some d \<Longrightarrow> valid_datetime d" "start_time r = Some t \<Longrightarrow> valid_time t"
    "end_date r = Some d \<Longrightarrow> valid_datetime d" "end_time r = Some t \<Longrightarrow> valid_time t"
  using assms by (simp_all add: valid_row_def)


subsection \<open>The example data\<close>

lemmas example_defs = example_row_def day_2024_03_01_def day_2024_03_03_def time_23_30_def time_00_30_def

lemma valid_examples:
  "valid_datetime day_2024_03_01" "valid_datetime day_2024_03_03" "valid_time time_23_30" "valid_time time_00_30"
  by (simp_all add: example_defs valid_datetime_def valid_time_def check_date_fields_def check_time_fields_def
      MINYEAR_def MAXYEAR_def days_in_month_def DAYS_IN_MONTH_def)

lemma example_timezone: "default_timezone example_service = Inr ''Europe/Paris''"
  by (simp add: default_timezone_def example_service_def)


lemma example_linked_calendars:
  "linked_calendars example_service True =
     Inr (dict_of_calendars (filter (\<lambda>cal. accessRole cal \<in> {''owner'', ''writer''}) example_calendars))"
  by (simp add: linked_calendars_def example_service_def)

section \<open>Results\<close>

subsection \<open>Schedule resolution\<close>

text \<open>
  C1. A row whose Start Date cell is blank makes \<open>format_date\<close> raise the exception
  "Event must contain a Start Date", whatever the other cells of the row hold.
\<close>

theorem format_date_blank_start_date:
  "start_date row = None \<Longrightarrow> format_date row = Inl (Exception ''Event must contain a Start Date'')"
  by (simp add: format_date_def)

theorem format_date_blank_start_date_witness:
  "start_date (example_row\<lparr>start_date := None\<rparr>) = None \<and>
   format_date (example_row\<lparr>start_date := None\<rparr>) = Inl (Exception ''Event must contain a Start Date'')"
  using format_date_blank_start_date[of "example_row\<lparr>start_date := None\<rparr>"] by simp

text \<open>
  C2. A row with a Start Date and a blank Start Time resolves to an all-day event: each
  side is a dictionary with the single key \<open>date\<close>; the start is the day of Start Date,
  the end is the day of End Date when that cell is filled and the day of Start Date
  otherwise. No time of day and no time zone is part of the result.
\<close>

theorem format_date_all_day:
  assumes "start_date row = Some d" "start_time row = None"
  shows "format_date row =
     Inr ([(''date'', Str (date_isoformat (date_of d)))],
          [(''date'', Str (case end_date row of
                             None \<Rightarrow> date_isoformat (date_of d)
                           | Some e \<Rightarrow> date_isoformat (date_of e)))])"
  using assms by (rule all_day_result)

theorem format_date_all_day_witness:
  "start_date (example_row\<lparr>start_time := None, end_date := Some day_2024_03_03\<rparr>) = Some day_2024_03_01 \<and>
   start_time (example_row\<lparr>start_time := None, end_date := Some day_2024_03_03\<rparr>) = None \<and>
   format_date (example_row\<lparr>start_time := None, end_date := Some day_2024_03_03\<rparr>) =
     Inr ([(''date'', Str ''2024-03-01'')], [(''date'', Str ''2024-03-03'')])"
proof -
  let ?r = "example_row\<lparr>start_time := None, end_date := Some day_2024_03_03\<rparr>"
  have h: "start_date ?r = Some day_2024_03_01" "start_time ?r = None"
    by (simp_all add: example_row_def)
  have "date_isoformat (date_of day_2024_03_01) = ''2024-03-01''"
    "date_isoformat (date_of day_2024_03_03) = ''2024-03-03''"
    by code_simp+
  with format_date_all_day[OF h] h show ?thesis by simp
qed

text \<open>
  C3, as the code has it. A row with a Start Time and a blank End Time resolves to a
  timed event that ends exactly one hour (3600 seconds) after it starts, whatever the
  End Date cell holds. The end is on the calendar day of Start Date exactly when Start
  Time is before 23:00; from 23:00 on it is on the following day. (The start must not lie
  in the last hour of 9999-12-31, to which Python cannot add an hour.)
\<close>

theorem format_date_default_duration:
  assumes "start_date row = Some d" "valid_datetime d" "start_time row = Some t" "valid_time t"
    "end_time row = None" "\<not> last_hour (combine d t)"
  shows "\<exists>e. format_date row =
            Inr ([(''dateTime'', Str (datetime_isoformat (combine d t))),
                  (''timeZone'', of_cell (start_time_zone row))],
                 [(''dateTime'', Str (datetime_isoformat e)),
                  (''timeZone'', of_cell (end_time_zone row))]) \<and>
          valid_datetime e \<and>
          total_seconds e = total_seconds (combine d t) + 3600 \<and>
          (date_of e = date_of d) = (t_hour t < 23) \<and>
          format_date (row\<lparr>end_date := x\<rparr>) = format_date row"
proof -
  have v: "valid_datetime (combine d t)" using assms(2,4) by (rule valid_combine)
  from add_one_hour_result[OF v assms(6)] obtain e where e: "add_one_hour (combine d t) = Inr e" ..
  have f: "format_date row =
            Inr ([(''dateTime'', Str (datetime_isoformat (combine d t))),
                  (''timeZone'', of_cell (start_time_zone row))],
                 [(''dateTime'', Str (datetime_isoformat e)),
                  (''timeZone'', of_cell (end_time_zone row))])"
    using format_date_timed_no_end_time[OF assms(1-5)] e by simp
  have "format_date (row\<lparr>end_date := x\<rparr>) = format_date row"
    using assms(1,3,5) by (simp add: format_date_def split: sum.split)
  moreover have "(date_of e = date_of d) = (t_hour t < 23)"
    using add_one_hour_same_day[OF v e] by (simp add: date_of_def combine_fields)
  ultimately show ?thesis
    using f add_one_hour_valid[OF v e] add_one_hour_seconds[OF v e] by blast
qed

theorem format_date_default_duration_witness:
  "start_date example_row = Some day_2024_03_01 \<and> valid_datetime day_2024_03_01 \<and>
   start_time example_row = Some time_23_30 \<and> valid_time time_23_30 \<and>
   end_time example_row = None \<and> \<not> last_hour (combine day_2024_03_01 time_23_30) \<and>
   (\<exists>e. format_date example_row =
            Inr ([(''dateTime'', Str (datetime_isoformat (combine day_2024_03_01 time_23_30))),
                  (''timeZone'', of_cell (start_time_zone example_row))],
                 [(''dateTime'', Str (datetime_isoformat e)),
                  (''timeZone'', of_cell (end_time_zone example_row))]) \<and>
          valid_datetime e \<and>
          total_seconds e = total_seconds (combine day_2024_03_01 time_23_30) + 3600 \<and>
          (date_of e = date_of day_2024_03_01) = (t_hour time_23_30 < 23) \<and>
          format_date (example_row\<lparr>end_date := Some day_2024_03_03\<rparr>) = format_date example_row)"
proof -
  have h: "start_date example_row = Some day_2024_03_01" "valid_datetime day_2024_03_01"
    "start_time example_row = Some time_23_30" "valid_time time_23_30"
    "end_time example_row = None" "\<not> last_hour (combine day_2024_03_01 time_23_30)"
    by (simp_all add: valid_examples) (simp_all add: example_defs last_hour_def combine_def)
  from format_date_default_duration[OF h, of "Some day_2024_03_03"] h show ?thesis by blast
qed

text \<open>
  C3, as the specification states it, fails: the row of 2024-03-01 with Start Time 23:30
  and a blank End Time ends at 00:30 on 2024-03-02, not on the day of Start Date.
\<close>

theorem format_date_default_duration_counterexample:
  "start_date example_row = Some day_2024_03_01 \<and> start_time example_row = Some time_23_30 \<and>
   end_time example_row = None \<and>
   format_date example_row =
     Inr ([(''dateTime'', Str ''2024-03-01T23:30:00''), (''timeZone'', Str ''Europe/Paris'')],
          [(''dateTime'', Str ''2024-03-02T00:30:00''), (''timeZone'', NaN)])"
  by code_simp

text \<open>
  C4. A row with a Start Time, an End Time and a blank End Date resolves to a timed event
  whose end is the End Time on the calendar day of Start Date. The two instants are not
  compared: the witness is a row whose end lies before its start.
\<close>

theorem format_date_end_on_start_day:
  assumes "start_date row = Some d" "valid_datetime d" "start_time row = Some t" "valid_time t"
    "end_time row = Some t'" "valid_time t'" "end_date row = None"
  shows "format_date row =
           Inr ([(''dateTime'', Str (datetime_isoformat (combine d t))),
                 (''timeZone'', of_cell (start_time_zone row))],
                [(''dateTime'', Str (datetime_isoformat (combine d t'))),
                 (''timeZone'', of_cell (end_time_zone row))]) \<and>
         date_of (combine d t') = date_of d"
  using assms format_date_timed_end_time[of row d t t' d]
  by (simp add: date_of_def combine_fields)

theorem format_date_end_on_start_day_witness:
  "start_date (example_row\<lparr>end_time := Some time_00_30\<rparr>) = Some day_2024_03_01 \<and>
   start_time (example_row\<lparr>end_time := Some time_00_30\<rparr>) = Some time_23_30 \<and>
   end_time (example_row\<lparr>end_time := Some time_00_30\<rparr>) = Some time_00_30 \<and>
   end_date (example_row\<lparr>end_time := Some time_00_30\<rparr>) = None \<and>
   format_date (example_row\<lparr>end_time := Some time_00_30\<rparr>) =
     Inr ([(''dateTime'', Str ''2024-03-01T23:30:00''), (''timeZone'', Str ''Europe/Paris'')],
          [(''dateTime'', Str ''2024-03-01T00:30:00''), (''timeZone'', NaN)]) \<and>
   total_seconds (combine day_2024_03_01 time_00_30) < total_seconds (combine day_2024_03_01 time_23_30)"
proof -
  let ?r = "example_row\<lparr>end_time := Some time_00_30\<rparr>"
  have h: "start_date ?r = Some day_2024_03_01" "valid_datetime day_2024_03_01"
    "start_time ?r = Some time_23_30" "valid_time time_23_30"
    "end_time ?r = Some time_00_30" "valid_time time_00_30" "end_date ?r = None"
    by (simp_all add: valid_examples) (simp_all add: example_row_def)
  have s: "datetime_isoformat (combine day_2024_03_01 time_23_30) = ''2024-03-01T23:30:00''"
    "datetime_isoformat (combine day_2024_03_01 time_00_30) = ''2024-03-01T00:30:00''"
    by code_simp+
  have z: "of_cell (start_time_zone ?r) = Str ''Europe/Paris''" "of_cell (end_time_zone ?r) = NaN"
    by (simp_all add: example_row_def of_cell_def)
  have lt: "total_seconds (combine day_2024_03_01 time_00_30) < total_seconds (combine day_2024_03_01 time_23_30)"
    by (simp add: total_seconds_def toordinal_def combine_def example_defs)
  from format_date_end_on_start_day[OF h] h s z lt show ?thesis by simp
qed

subsection \<open>The calendar directory\<close>

text \<open>
  C5. Whenever \<open>df_cal_format\<close> returns, a row whose Calendar Name is "Primary" (or is
  blank, which is filled with "Primary") has the id \<open>primary\<close>, whatever the calendar
  list of the service holds; in the witness the service lists a calendar named "Primary"
  with another id.
\<close>

theorem primary_maps_to_sentinel:
  assumes "df_cal_format df svc = Inr df'" "i < length df"
    "calendar_name (df ! i) = Some ''Primary'' \<or> calendar_name (df ! i) = None"
  shows "row_id (df' ! i) = Some ''primary''"
proof -
  from assms(1) obtain tz calendars where
    rows: "apply_rows (add_columns (calendars(''Primary'' \<mapsto> ''primary''))) (map (fill_defaults tz) df) = Inr df'"
    by (rule df_cal_format_Inr)
  from apply_rows_Inr[OF rows] assms(2)
  have "add_columns (calendars(''Primary'' \<mapsto> ''primary'')) (fill_defaults tz (df ! i)) = Inr (df' ! i)"
    by simp
  then have "row_id (df' ! i) =
      map_cell (calendar_name (fill_defaults tz (df ! i))) (calendars(''Primary'' \<mapsto> ''primary''))"
    by (simp add: add_columns_Inr)
  then show ?thesis
    using assms(3) by (auto simp: fill_defaults_def fillna_def map_cell_def)
qed

theorem primary_maps_to_sentinel_witness:
  "(\<exists>m. linked_calendars example_service True = Inr m \<and> m ''Primary'' = Some ''abc@group.calendar'') \<and>
   (\<exists>df'. df_cal_format [example_row\<lparr>calendar_name := Some ''Primary''\<rparr>] example_service = Inr df' \<and>
          row_id (df' ! 0) = Some ''primary'')"
proof -
  let ?df = "[example_row\<lparr>calendar_name := Some ''Primary''\<rparr>]"
  have m: "\<exists>m. linked_calendars example_service True = Inr m \<and> m ''Primary'' = Some ''abc@group.calendar''"
    by (simp add: example_linked_calendars dict_of_calendars_def example_calendars_def)
  have "\<not> isl (format_date (fill_defaults ''Europe/Paris'' (example_row\<lparr>calendar_name := Some ''Primary''\<rparr>)))"
    by code_simp
  then have ok: "list_all (\<lambda>r. \<not> isl (format_date (fill_defaults ''Europe/Paris'' r))) ?df" by simp
  have ne: "?df \<noteq> []" by simp
  from df_cal_format_total[OF example_timezone example_linked_calendars ok ne]
  obtain df' where df': "df_cal_format ?df example_service = Inr df'" ..
  have "row_id (df' ! 0) = Some ''primary''"
    using primary_maps_to_sentinel[OF df', of 0] by simp
  with df' m show ?thesis by blast
qed

subsection \<open>The wire format\<close>

text \<open>
  C6. A row with all of Start Date, Start Time, End Date, End Time and both time zones
  resolves to two sides whose \<open>dateTime\<close> strings, read back, give the year, month and
  day of the date cell and the hour and minute of the time cell (at second 0), and whose
  \<open>timeZone\<close> is the string of the time zone cell: no instant is shifted.
\<close>

theorem format_date_round_trip:
  assumes "start_date row = Some d" "valid_datetime d" "start_time row = Some t" "valid_time t"
    "end_date row = Some d'" "valid_datetime d'" "end_time row = Some t'" "valid_time t'"
    "start_time_zone row = Some z" "end_time_zone row = Some z'"
  shows "format_date row =
           Inr ([(''dateTime'', Str (datetime_isoformat (combine d t))), (''timeZone'', Str z)],
                [(''dateTime'', Str (datetime_isoformat (combine d' t'))), (''timeZone'', Str z')]) \<and>
         fromisoformat (datetime_isoformat (combine d t)) = Inr (combine d t) \<and>
         fromisoformat (datetime_isoformat (combine d' t')) = Inr (combine d' t')"
proof -
  have "valid_datetime (combine d t)" "valid_datetime (combine d' t')"
    using assms by (simp_all add: valid_combine)
  then have "fromisoformat (datetime_isoformat (combine d t)) = Inr (combine d t)"
    "fromisoformat (datetime_isoformat (combine d' t')) = Inr (combine d' t')"
    by (simp_all add: fromisoformat_isoformat combine_fields)
  moreover have "format_date row =
           Inr ([(''dateTime'', Str (datetime_isoformat (combine d t))), (''timeZone'', Str z)],
                [(''dateTime'', Str (datetime_isoformat (combine d' t'))), (''timeZone'', Str z')])"
    using assms format_date_timed_end_time[of row d t t' d'] by (simp add: of_cell_def)
  ultimately show ?thesis by simp
qed

theorem format_date_round_trip_witness:
  "format_date (example_row\<lparr>end_date := Some day_2024_03_03, end_time := Some time_00_30,
                            end_time_zone := Some ''America/New_York''\<rparr>) =
     Inr ([(''dateTime'', Str ''2024-03-01T23:30:00''), (''timeZone'', Str ''Europe/Paris'')],
          [(''dateTime'', Str ''2024-03-03T00:30:00''), (''timeZone'', Str ''America/New_York'')]) \<and>
   fromisoformat ''2024-03-01T23:30:00'' =
     Inr \<lparr>year = 2024, month = 3, day = 1, hour = 23, minute = 30, second = 0, microsecond = 0\<rparr> \<and>
   fromisoformat ''2024-03-03T00:30:00'' =
     Inr \<lparr>year = 2024, month = 3, day = 3, hour = 0, minute = 30, second = 0, microsecond = 0\<rparr>"
proof -
  let ?r = "example_row\<lparr>end_date := Some day_2024_03_03, end_time := Some time_00_30,
                            end_time_zone := Some ''America/New_York''\<rparr>"
  have h: "start_date ?r = Some day_2024_03_01" "valid_datetime day_2024_03_01"
    "start_time ?r = Some time_23_30" "valid_time time_23_30"
    "end_date ?r = Some day_2024_03_03" "valid_datetime day_2024_03_03"
    "end_time ?r = Some time_00_30" "valid_time time_00_30"
    "start_time_zone ?r = Some ''Europe/Paris''" "end_time_zone ?r = Some ''America/New_York''"
    by (simp_all add: valid_examples) (simp_all add: example_row_def)
  have s: "datetime_isoformat (combine day_2024_03_01 time_23_30) = ''2024-03-01T23:30:00''"
    "datetime_isoformat (combine day_2024_03_03 time_00_30) = ''2024-03-03T00:30:00''"
    by code_simp+
  have c: "combine day_2024_03_01 time_23_30 =
      \<lparr>year = 2024, month = 3, day = 1, hour = 23, minute = 30, second = 0, microsecond = 0\<rparr>"
    "combine day_2024_03_03 time_00_30 =
      \<lparr>year = 2024, month = 3, day = 3, hour = 0, minute = 30, second = 0, microsecond = 0\<rparr>"
    by (simp_all add: combine_def example_defs)
  from format_date_round_trip[OF h, unfolded s, unfolded c] show ?thesis .
qed

text \<open>
  C7. For a row with well-formed cells, after the defaults are filled, whenever
  \<open>format_date\<close> returns, the two sides have the same one of two shapes: both are
  \<open>{date: YYYY-MM-DD}\<close> with no other key, or both are
  \<open>{dateTime: YYYY-MM-DDTHH:MM:SS, timeZone: string}\<close> with no other key.
\<close>

theorem wire_shapes:
  assumes "valid_row row" "format_date (fill_defaults tz row) = Inr (s, e)"
  shows "(all_day_side s \<and> all_day_side e \<and> \<not> timed_side s \<and> \<not> timed_side e) \<or>
         (timed_side s \<and> timed_side e \<and> \<not> all_day_side s \<and> \<not> all_day_side e)"
proof -
  let ?r = "fill_defaults tz row"
  obtain z z' where tz: "start_time_zone ?r = Some z" "end_time_zone ?r = Some z'"
    by (cases "start_time_zone row"; cases "end_time_zone row") (simp_all add: fill_defaults_def fillna_def)
  have same: "start_date ?r = start_date row" "start_time ?r = start_time row"
    "end_date ?r = end_date row" "end_time ?r = end_time row"
    by (simp_all add: fill_defaults_def)
  from assms(2) obtain d where d: "start_date ?r = Some d"
    by (cases "start_date ?r") (simp_all add: format_date_def)
  note v = valid_rowD[OF assms(1)]
  from d have vd: "valid_datetime d" by (intro v(1)) (simp add: same)
  show ?thesis
  proof (cases "start_time ?r")
    case None
    have ve: "\<And>x. end_date ?r = Some x \<Longrightarrow> valid_datetime x"
      by (intro v(3)) (simp add: same)
    from all_day_result[OF d None] assms(2)
    have s: "s = [(''date'', Str (date_isoformat (date_of d)))]"
      and e: "e = [(''date'', Str (case end_date ?r of
                             None \<Rightarrow> date_isoformat (date_of d)
                           | Some x \<Rightarrow> date_isoformat (date_of x)))]"
      by simp_all
    have "all_day_side s" unfolding s using vd by (simp add: is_iso_date_valid)
    moreover have "all_day_side e"
      unfolding e using vd ve by (cases "end_date ?r") (simp_all add: is_iso_date_valid)
    ultimately show ?thesis by (simp add: all_day_not_timed)
  next
    case (Some t)
    then have vt: "valid_time t" by (intro v(2)) (simp add: same)
    have vs: "valid_datetime (combine d t)" using vd vt by (rule valid_combine)
    show ?thesis
    proof (cases "end_time ?r")
      case None
      from format_date_timed_no_end_time[OF d vd Some vt None] assms(2)
      obtain x where x: "add_one_hour (combine d t) = Inr x"
        and s: "s = [(''dateTime'', Str (datetime_isoformat (combine d t))), (''timeZone'', Str z)]"
        and e: "e = [(''dateTime'', Str (datetime_isoformat x)), (''timeZone'', Str z')]"
        by (auto simp: tz of_cell_def split: sum.splits)
      have "valid_datetime x" "microsecond x = 0"
        using add_one_hour_valid[OF vs x] add_one_hour_fields[OF x] by (simp_all add: combine_fields)
      then show ?thesis
        unfolding s e using vs by (simp add: is_iso_datetime_isoformat combine_fields)
    next
      case (Some t')
      then have vt': "valid_time t'" by (intro v(4)) (simp add: same)
      define d' where "d' = (case end_date ?r of None \<Rightarrow> d | Some x \<Rightarrow> x)"
      have vd': "valid_datetime d'"
      proof (cases "end_date ?r")
        case None
        then show ?thesis using vd by (simp add: d'_def)
      next
        case (Some x)
        then have "valid_datetime x" by (intro v(3)) (simp add: same)
        with Some show ?thesis by (simp add: d'_def)
      qed
      from format_date_timed_end_time[OF d vd \<open>start_time ?r = Some t\<close> vt Some vt' d'_def vd'] assms(2)
      have s: "s = [(''dateTime'', Str (datetime_isoformat (combine d t))), (''timeZone'', Str z)]"
        and e: "e = [(''dateTime'', Str (datetime_isoformat (combine d' t'))), (''timeZone'', Str z')]"
        by (simp_all add: tz of_cell_def)
      have "valid_datetime (combine d' t')" using vd' vt' by (rule valid_combine)
      then show ?thesis
        unfolding s e using vs by (simp add: is_iso_datetime_isoformat combine_fields)
    qed
  qed
qed

theorem wire_shapes_witness:
  "valid_row example_row \<and>
   format_date (fill_defaults ''Europe/Paris'' example_row) =
     Inr ([(''dateTime'', Str ''2024-03-01T23:30:00''), (''timeZone'', Str ''Europe/Paris'')],
          [(''dateTime'', Str ''2024-03-02T00:30:00''), (''timeZone'', Str ''Europe/Paris'')]) \<and>
   timed_side [(''dateTime'', Str ''2024-03-01T23:30:00''), (''timeZone'', Str ''Europe/Paris'')] \<and>
   timed_side [(''dateTime'', Str ''2024-03-02T00:30:00''), (''timeZone'', Str ''Europe/Paris'')]"
proof -
  have v: "valid_row example_row"
    using valid_examples by (simp add: valid_row_def example_row_def)
  have f: "format_date (fill_defaults ''Europe/Paris'' example_row) =
     Inr ([(''dateTime'', Str ''2024-03-01T23:30:00''), (''timeZone'', Str ''Europe/Paris'')],
          [(''dateTime'', Str ''2024-03-02T00:30:00''), (''timeZone'', Str ''Europe/Paris'')])"
    by code_simp
  from wire_shapes[OF v f] v f show ?thesis by auto
qed

subsection \<open>Normalization\<close>




subsection \<open>Unmatched calendar names\<close>

text \<open>
  C9. Let the service answer its two queries and let \<open>format_date\<close> return on every
  row. If the Calendar Name of row \<open>i\<close> is not "Primary" and is not equal, as a string,
  to the name of any calendar of the list with access role owner or writer, then
  \<open>df_cal_format\<close> returns all the same, row \<open>i\<close> has a blank id, and
  \<open>create_new_event\<close> hands that row to \<open>events().insert\<close> of the service with
  \<open>calendarId\<close> NaN: nothing before the submission step fails on the name. In the
  witness the name differs from that of a writable calendar in the case of one letter,
  and the run ends with the error of the service.
\<close>

theorem unmatched_calendar_name_deferred:
  assumes "default_timezone svc = Inr tz" "calendarList_list svc = Inr cals"
    "list_all (\<lambda>r. \<not> isl (format_date (fill_defaults tz r))) df"
    "i < length df" "calendar_name (df ! i) = Some name" "name \<noteq> ''Primary''"
    "\<forall>c \<in> set cals. accessRole c \<in> {''owner'', ''writer''} \<longrightarrow> cal_summary c \<noteq> name"
  shows "\<exists>df'. df_cal_format df svc = Inr df' \<and> length df' = length df \<and>
           row_id (df' ! i) = None \<and>
           create_new_event (df' ! i) svc =
             events_insert svc NaN
               \<lparr>body_summary = of_cell (summary (df ! i)),
                body_description = of_cell (fillna (description (df ! i)) []),
                body_start = start (df' ! i), body_end = end' (df' ! i)\<rparr>"
proof -
  define calendars where
    "calendars = dict_of_calendars (filter (\<lambda>cal. accessRole cal \<in> {''owner'', ''writer''}) cals)"
  let ?C = "calendars(''Primary'' \<mapsto> ''primary'')"
  have lc: "linked_calendars svc True = Inr calendars"
    using assms(2) by (simp add: linked_calendars_def calendars_def)
  have "list_all (\<lambda>r. \<not> isl (add_columns ?C r)) (map (fill_defaults tz) df)"
    using assms(3) by (simp add: list_all_iff add_columns_isl)
  from apply_rows_total[OF this] obtain df' where
    rows: "apply_rows (add_columns ?C) (map (fill_defaults tz) df) = Inr df'" ..
  have ne: "df \<noteq> []" using assms(4) by auto
  have df': "df_cal_format df svc = Inr df'"
    using assms(1) lc rows ne by (simp add: df_cal_format_def)
  from apply_rows_Inr[OF rows] assms(4)
  have len: "length df' = length df"
    and ac: "add_columns ?C (fill_defaults tz (df ! i)) = Inr (df' ! i)"
    by simp_all
  have "calendars name = None"
    using assms(7) by (auto simp: calendars_def dict_of_calendars_None)
  then have "map_cell (calendar_name (fill_defaults tz (df ! i))) ?C = None"
    using assms(5,6) by (simp add: fill_defaults_def fillna_def map_cell_def)
  with add_columns_Inr[OF ac]
  have id: "row_id (df' ! i) = None" and s: "summary (df' ! i) = summary (df ! i)"
    and d: "description (df' ! i) = fillna (description (df ! i)) []"
    by (simp_all add: fill_defaults_def)
  have "create_new_event (df' ! i) svc =
             events_insert svc NaN
               \<lparr>body_summary = of_cell (summary (df ! i)),
                body_description = of_cell (fillna (description (df ! i)) []),
                body_start = start (df' ! i), body_end = end' (df' ! i)\<rparr>"
    by (simp add: create_new_event_def id s d of_cell_def)
  with df' len id show ?thesis by blast
qed

theorem unmatched_calendar_name_deferred_witness:
  "calendar_name (example_row\<lparr>calendar_name := Some ''work''\<rparr>) = Some ''work'' \<and>
   (\<exists>df'. df_cal_format [example_row\<lparr>calendar_name := Some ''work''\<rparr>] example_service = Inr df' \<and>
          length df' = 1 \<and> row_id (df' ! 0) = None \<and>
          create_new_event (df' ! 0) example_service = Inl (HttpError ''Not Found'')) \<and>
   xlsx_to_calendar example_service [example_row\<lparr>calendar_name := Some ''work''\<rparr>] =
     Inl (HttpError ''Not Found'')"
proof -
  let ?r = "example_row\<lparr>calendar_name := Some ''work''\<rparr>"
  have "\<not> isl (format_date (fill_defaults ''Europe/Paris'' ?r))"
    by code_simp
  then have h3: "list_all (\<lambda>r. \<not> isl (format_date (fill_defaults ''Europe/Paris'' r))) [?r]"
    by simp
  have h2: "calendarList_list example_service = Inr example_calendars"
    by (simp add: example_service_def)
  have h4: "0 < length [?r]" by simp
  have h5: "calendar_name ([?r] ! 0) = Some ''work''" by simp
  have h6: "''work'' \<noteq> ''Primary''" by simp
  have h7: "\<forall>c \<in> set example_calendars.
      accessRole c \<in> {''owner'', ''writer''} \<longrightarrow> cal_summary c \<noteq> ''work''"
    by (simp add: example_calendars_def)
  from unmatched_calendar_name_deferred[OF example_timezone h2 h3 h4 h5 h6 h7]
  obtain df' where "df_cal_format [?r] example_service = Inr df'" "length df' = length [?r]"
    "row_id (df' ! 0) = None"
    "create_new_event (df' ! 0) example_service =
       events_insert example_service NaN
         \<lparr>body_summary = of_cell (summary ([?r] ! 0)),
          body_description = of_cell (fillna (description ([?r] ! 0)) []),
          body_start = start (df' ! 0), body_end = end' (df' ! 0)\<rparr>"
    by blast
  moreover have "\<And>b. events_insert example_service NaN b = Inl (HttpError ''Not Found'')"
    by (simp add: example_service_def)
  moreover have "xlsx_to_calendar example_service [?r] = Inl (HttpError ''Not Found'')"
    by code_simp
  ultimately show ?thesis by simp
qed

subsection \<open>Seconds\<close>

text \<open>
  C10. \<open>format_date\<close> reads only the hour and the minute of the Start Time and End Time
  cells: replacing their second and microsecond by any other values changes neither the
  result nor whether there is one.
\<close>

theorem format_date_ignores_seconds:
  "format_date
     (row\<lparr>start_time := map_option (\<lambda>t. t\<lparr>t_second := s, t_microsecond := us\<rparr>) (start_time row),
          end_time := map_option (\<lambda>t. t\<lparr>t_second := s', t_microsecond := us'\<rparr>) (end_time row)\<rparr>) =
   format_date row"
  by (cases "start_date row"; cases "start_time row"; cases "end_time row")
     (simp_all add: format_date_def split: sum.split option.split)

end
